theory Spec2Isabelle
  imports Main
begin


section \<open>The sharing platform of main.py: data model\<close>

text \<open>
  The module keeps three dictionaries, \<open>_mem_users\<close>, \<open>_mem_items\<close> and \<open>_mem_loans\<close>,
  from an id to a document. The development follows the in-memory backend
  (\<open>USE_MONGO = False\<close>, the value the module starts with and keeps whenever
  \<open>MONGO_URI\<close> is unset or unreachable); the document store behind the other branch is
  not part of the repository.

  Python's \<open>int\<close> is unbounded, so points are \<open>int\<close>. A document is a record with the
  keys the code writes, a dictionary is a map. Every handler returns its answer together
  with the store it leaves behind, on the error paths too, so that what a failing request
  writes is part of the model. The two values the code draws from its environment, the
  result of \<open>_new_id()\<close> (a \<open>uuid4\<close>) and of \<open>datetime.utcnow().isoformat()\<close>, are
  parameters \<open>nid\<close> and \<open>now\<close> of the functions that call them.
\<close>

definition POINTS_FOR_LENDING :: int where
  "POINTS_FOR_LENDING = 10"

definition POINTS_FOR_BORROW :: int where
  "POINTS_FOR_BORROW = 5"

text \<open>The \<open>detail\<close> messages of the \<open>HTTPException\<close>s, one constructor per message.\<close>

datatype detail =
    Owner_not_found
  | Item_not_found
  | Item_already_lent
  | Borrower_not_found
  | Insufficient_points
  | Item_update_failed

text \<open>
  \<open>HTTPException status detail\<close> is what the handlers raise; \<open>RequestValidationError\<close>
  is the answer (status 422) when the body does not build the pydantic model, and
  \<open>ResponseValidationError\<close> the answer (status 500) when what the handler returned does
  not build the \<open>response_model\<close>.
\<close>

datatype error =
    HTTPException nat detail
  | RequestValidationError
  | ResponseValidationError

fun status_code :: "error \<Rightarrow> nat" where
  "status_code (HTTPException c d) = c"
| "status_code RequestValidationError = 422"
| "status_code ResponseValidationError = 500"

record UserCreate =
  uc_name :: string
  uc_email :: string

record UserOut =
  uo_id :: string
  uo_name :: string
  uo_email :: string
  uo_points :: int

record ItemCreate =
  ic_name :: string
  ic_description :: "string option"
  ic_owner_id :: string

record ItemOut =
  io_id :: string
  io_name :: string
  io_description :: "string option"
  io_owner_id :: string
  io_available :: bool

record LoanCreate =
  item_id :: string
  borrower_id :: string

record user_doc =
  u_name :: string
  u_email :: string
  u_points :: int
  u_created_at :: string
  u_id :: string

record item_doc =
  i_name :: string
  i_description :: "string option"
  i_owner_id :: string
  i_available :: bool
  i_created_at :: string
  i_id :: string

record loan_doc =
  l_item_id :: string
  l_borrower_id :: string
  l_borrowed_at :: string
  l_id :: string

record store =
  mem_users :: "string \<rightharpoonup> user_doc"
  mem_items :: "string \<rightharpoonup> item_doc"
  mem_loans :: "string \<rightharpoonup> loan_doc"

definition empty_store :: store where
  "empty_store = \<lparr>mem_users = Map.empty, mem_items = Map.empty, mem_loans = Map.empty\<rparr>"

section \<open>The storage functions\<close>

definition create_user_store :: "store \<Rightarrow> UserCreate \<Rightarrow> string \<Rightarrow> string \<Rightarrow> UserOut \<times> store" where
  "create_user_store st user nid now =
     (let doc = \<lparr>u_name = uc_name user, u_email = uc_email user, u_points = 0,
                 u_created_at = now, u_id = nid\<rparr>
      in (\<lparr>uo_id = u_id doc, uo_name = u_name doc, uo_email = u_email doc,
           uo_points = u_points doc\<rparr>,
          st\<lparr>mem_users := (mem_users st)(nid \<mapsto> doc)\<rparr>))"

definition get_user_store :: "store \<Rightarrow> string \<Rightarrow> user_doc option" where
  "get_user_store st user_id = mem_users st user_id"

definition update_user_points :: "store \<Rightarrow> string \<Rightarrow> int \<Rightarrow> bool \<times> store" where
  "update_user_points st user_id delta =
     (case mem_users st user_id of
        None \<Rightarrow> (False, st)
      | Some u \<Rightarrow>
          (True, st\<lparr>mem_users := (mem_users st)(user_id \<mapsto> u\<lparr>u_points := u_points u + delta\<rparr>)\<rparr>))"

definition create_item_store :: "store \<Rightarrow> ItemCreate \<Rightarrow> string \<Rightarrow> string \<Rightarrow> ItemOut \<times> store" where
  "create_item_store st item nid now =
     (let doc = \<lparr>i_name = ic_name item, i_description = ic_description item,
                 i_owner_id = ic_owner_id item, i_available = True,
                 i_created_at = now, i_id = nid\<rparr>
      in (\<lparr>io_id = i_id doc, io_name = i_name doc, io_description = i_description doc,
           io_owner_id = i_owner_id doc, io_available = i_available doc\<rparr>,
          st\<lparr>mem_items := (mem_items st)(nid \<mapsto> doc)\<rparr>))"

definition get_item_store :: "store \<Rightarrow> string \<Rightarrow> item_doc option" where
  "get_item_store st iid = mem_items st iid"

definition set_item_availability :: "store \<Rightarrow> string \<Rightarrow> bool \<Rightarrow> bool \<times> store" where
  "set_item_availability st iid available =
     (case mem_items st iid of
        None \<Rightarrow> (False, st)
      | Some it \<Rightarrow>
          (True, st\<lparr>mem_items := (mem_items st)(iid \<mapsto> it\<lparr>i_available := available\<rparr>)\<rparr>))"

definition create_loan_store :: "store \<Rightarrow> LoanCreate \<Rightarrow> string \<Rightarrow> string \<Rightarrow> loan_doc \<times> store" where
  "create_loan_store st loan nid now =
     (let doc = \<lparr>l_item_id = item_id loan, l_borrower_id = borrower_id loan,
                 l_borrowed_at = now, l_id = nid\<rparr>
      in (doc, st\<lparr>mem_loans := (mem_loans st)(nid \<mapsto> doc)\<rparr>))"

section \<open>The handlers\<close>

text \<open>
  Each handler takes the pydantic model the framework has built from the body. For
  \<open>ItemCreate\<close> and \<open>LoanCreate\<close> that is a record of the fields; the theorems about
  \<open>create_item\<close>, \<open>borrow_item\<close> and \<open>return_item\<close> hold for every value of them.
\<close>

definition create_user :: "store \<Rightarrow> UserCreate \<Rightarrow> string \<Rightarrow> string \<Rightarrow> (error + UserOut) \<times> store" where
  "create_user st user nid now =
     (let (u, st1) = create_user_store st user nid now in (Inr u, st1))"

definition create_item :: "store \<Rightarrow> ItemCreate \<Rightarrow> string \<Rightarrow> string \<Rightarrow> (error + ItemOut) \<times> store" where
  "create_item st item nid now =
     (case get_user_store st (ic_owner_id item) of
        None \<Rightarrow> (Inl (HTTPException 404 Owner_not_found), st)
      | Some owner \<Rightarrow>
          (let (i, st1) = create_item_store st item nid now;
               (ok, st2) = update_user_points st1 (ic_owner_id item) POINTS_FOR_LENDING
           in (Inr i, st2)))"

definition borrow_item :: "store \<Rightarrow> LoanCreate \<Rightarrow> string \<Rightarrow> string \<Rightarrow> (error + string) \<times> store" where
  "borrow_item st loan nid now =
     (case get_item_store st (item_id loan) of
        None \<Rightarrow> (Inl (HTTPException 404 Item_not_found), st)
      | Some item \<Rightarrow>
          if \<not> i_available item then (Inl (HTTPException 409 Item_already_lent), st)
          else
            (case get_user_store st (borrower_id loan) of
               None \<Rightarrow> (Inl (HTTPException 404 Borrower_not_found), st)
             | Some borrower \<Rightarrow>
                 if u_points borrower < POINTS_FOR_BORROW
                 then (Inl (HTTPException 403 Insufficient_points), st)
                 else
                   (let (ok, st1) = set_item_availability st (item_id loan) False
                    in if \<not> ok then (Inl (HTTPException 500 Item_update_failed), st1)
                       else
                         (let (ok2, st2) = update_user_points st1 (borrower_id loan) (- POINTS_FOR_BORROW);
                              (doc, st3) = create_loan_store st2 loan nid now
                          in (Inr ''item emprestado com sucesso'', st3)))))"

definition return_item :: "store \<Rightarrow> string \<Rightarrow> (error + string) \<times> store" where
  "return_item st iid =
     (case get_item_store st iid of
        None \<Rightarrow> (Inl (HTTPException 404 Item_not_found), st)
      | Some item \<Rightarrow>
          (let (ok, st1) = set_item_availability st iid True
           in if \<not> ok then (Inl (HTTPException 500 Item_update_failed), st1)
              else (Inr ''item devolvido com sucesso'', st1)))"

section \<open>Registration: the email validator\<close>

text \<open>
  Strings are lists of \<open>char\<close>, read as code points below 256. \<open>re.match\<close> is modelled
  for the patterns the module uses: a sequence of pieces, each a single character test
  (\<open>c\<close> or \<open>[^c]\<close>) taken once or, with \<open>+\<close>, one or more times. \<open>re_match ps s\<close>
  holds when the pattern matches at the start of \<open>s\<close>, as \<open>re.match\<close> does: the
  pattern need not reach the end of the string.
\<close>

datatype py_error = ValueError

datatype atom = Lit char | Not_lit char

datatype piece = One atom | Many1 atom

fun accepts :: "atom \<Rightarrow> char \<Rightarrow> bool" where
  "accepts (Lit a) c = (c = a)"
| "accepts (Not_lit a) c = (c \<noteq> a)"

fun re_match :: "piece list \<Rightarrow> string \<Rightarrow> bool" where
  "re_match [] s = True"
| "re_match (One a # ps) [] = False"
| "re_match (One a # ps) (c # s) = (accepts a c \<and> re_match ps s)"
| "re_match (Many1 a # ps) [] = False"
| "re_match (Many1 a # ps) (c # s) =
     (accepts a c \<and> (re_match (Many1 a # ps) s \<or> re_match ps s))"

text \<open>The pattern \<^verbatim>\<open>[^@]+@[^@]+\.[^@]+\<close> of \<open>simple_email\<close>.\<close>

definition email_pattern :: "piece list" where
  "email_pattern =
     [Many1 (Not_lit (CHR ''@'')), One (Lit (CHR ''@'')),
      Many1 (Not_lit (CHR ''@'')), One (Lit (CHR ''.'')),
      Many1 (Not_lit (CHR ''@''))]"

text \<open>
  \<open>str.lower\<close> and \<open>str.strip\<close> on code points below 256: the upper-case letters
  are \<open>A\<close> to \<open>Z\<close> and \<open>0xC0\<close> to \<open>0xDE\<close> without \<open>0xD7\<close>, each 32 below its
  lower-case letter; the white space is \<open>0x09\<close> to \<open>0x0D\<close>, \<open>0x1C\<close> to \<open>0x20\<close>,
  \<open>0x85\<close> and \<open>0xA0\<close>.
\<close>

definition py_isspace :: "char \<Rightarrow> bool" where
  "py_isspace c \<longleftrightarrow> (of_char c :: nat) \<in> {9, 10, 11, 12, 13, 28, 29, 30, 31, 32, 133, 160}"

definition py_lower_char :: "char \<Rightarrow> char" where
  "py_lower_char c =
     (let n = (of_char c :: nat)
      in if (65 \<le> n \<and> n \<le> 90) \<or> (192 \<le> n \<and> n \<le> 222 \<and> n \<noteq> 215)
         then char_of (n + 32) else c)"

definition py_lower :: "string \<Rightarrow> string" where
  "py_lower s = map py_lower_char s"

definition py_strip :: "string \<Rightarrow> string" where
  "py_strip s = rev (dropWhile py_isspace (rev (dropWhile py_isspace s)))"

definition simple_email :: "string \<Rightarrow> py_error + string" where
  "simple_email v =
     (if \<not> re_match email_pattern v then Inl ValueError
      else Inr (py_strip (py_lower v)))"

text \<open>
  Building a \<open>UserCreate\<close> from the request body: \<open>name\<close> has \<open>min_length=1\<close>,
  \<open>email\<close> goes through the validator and the model keeps what the validator returns.
  A body that fails is answered 422 and the handler does not run.
\<close>

definition UserCreate_validate :: "string \<Rightarrow> string \<Rightarrow> error + UserCreate" where
  "UserCreate_validate name email =
     (if length name < 1 then Inl RequestValidationError
      else (case simple_email email of
              Inl e \<Rightarrow> Inl RequestValidationError
            | Inr v \<Rightarrow> Inr \<lparr>uc_name = name, uc_email = v\<rparr>))"

text \<open>
  The route declares \<open>response_model=UserOut\<close>, and \<open>UserOut\<close> extends \<open>UserCreate\<close>:
  what the handler returns goes through the same two field checks once more, after the
  handler has written to the store. An answer that fails them is replaced by a 500.
\<close>

definition UserOut_validate :: "UserOut \<Rightarrow> error + UserOut" where
  "UserOut_validate u =
     (if length (uo_name u) < 1 then Inl ResponseValidationError
      else (case simple_email (uo_email u) of
              Inl e \<Rightarrow> Inl ResponseValidationError
            | Inr v \<Rightarrow> Inr (u\<lparr>uo_email := v\<rparr>)))"

text \<open>
  \<open>post_users\<close> is the route \<open>POST /users/\<close>: the body is validated, \<open>create_user\<close>
  runs, its answer is validated.
\<close>

definition post_users :: "store \<Rightarrow> string \<Rightarrow> string \<Rightarrow> string \<Rightarrow> string \<Rightarrow> (error + UserOut) \<times> store" where
  "post_users st name email nid now =
     (case UserCreate_validate name email of
        Inl e \<Rightarrow> (Inl e, st)
      | Inr user \<Rightarrow>
          (case create_user st user nid now of
             (Inl e, st1) \<Rightarrow> (Inl e, st1)
           | (Inr u, st1) \<Rightarrow>
               (case UserOut_validate u of
                  Inl e \<Rightarrow> (Inl e, st1)
                | Inr out \<Rightarrow> (Inr out, st1))))"

text \<open>
  The shape \<open>local@domain.tld\<close> (\<open>text@text.text\<close>) of the specification: the whole
  email is a text, an \<open>@\<close>, a text, a dot and a text, where a text is non-empty and, as
  in the pattern, has no \<open>@\<close>. Position \<open>i\<close> holds the \<open>@\<close> and position \<open>j\<close>
  the dot.
\<close>

definition is_text :: "string \<Rightarrow> bool" where
  "is_text t \<longleftrightarrow> t \<noteq> [] \<and> CHR ''@'' \<notin> set t"

definition email_shape :: "string \<Rightarrow> bool" where
  "email_shape v \<longleftrightarrow>
     (\<exists>i \<in> set [0..<length v]. \<exists>j \<in> set [i + 1..<length v].
        v ! i = CHR ''@'' \<and> v ! j = CHR ''.''
        \<and> is_text (take i v)
        \<and> is_text (take (j - (i + 1)) (drop (i + 1) v))
        \<and> is_text (drop (j + 1) v))"

section \<open>Runs of requests\<close>

text \<open>
  A request to one of the four writing routes, with the id and the time stamp the handler
  will draw: \<open>POST /users/\<close>, \<open>POST /items/\<close>, \<open>POST /loans/\<close> and
  \<open>POST /loans/return/{item_id}\<close>. \<open>run\<close> serves a list of requests one after the
  other, each on the store the previous one left, whether it succeeded or failed.
\<close>

datatype request =
    Register string string string string
  | Create_item ItemCreate string string
  | Borrow LoanCreate string string
  | Return string

fun step :: "store \<Rightarrow> request \<Rightarrow> store" where
  "step st (Register name email nid now) = snd (post_users st name email nid now)"
| "step st (Create_item item nid now) = snd (create_item st item nid now)"
| "step st (Borrow loan nid now) = snd (borrow_item st loan nid now)"
| "step st (Return iid) = snd (return_item st iid)"

fun run :: "store \<Rightarrow> request list \<Rightarrow> store" where
  "run st [] = st"
| "run st (r # rs) = run (step st r) rs"

text \<open>
  The store keeps no trace of returns, so a claim about loans and later returns needs the
  history of a run: \<open>Lent lid\<close> when a borrow succeeded and stored the loan \<open>lid\<close>,
  \<open>Returned iid\<close> when a return of item \<open>iid\<close> succeeded, in the order they happened.
\<close>

datatype event = Lent string | Returned string

fun events :: "store \<Rightarrow> request \<Rightarrow> event list" where
  "events st (Borrow loan nid now) =
     (case fst (borrow_item st loan nid now) of Inl e \<Rightarrow> [] | Inr m \<Rightarrow> [Lent nid])"
| "events st (Return iid) =
     (case fst (return_item st iid) of Inl e \<Rightarrow> [] | Inr m \<Rightarrow> [Returned iid])"
| "events st r = []"

fun history :: "store \<Rightarrow> request list \<Rightarrow> event list" where
  "history st [] = []"
| "history st (r # rs) = events st r @ history (step st r) rs"

text \<open>
  \<open>_new_id()\<close> is a \<open>uuid4\<close>: the id drawn for a new document is one that no document
  of that dictionary has yet.
\<close>

fun fresh :: "store \<Rightarrow> request \<Rightarrow> bool" where
  "fresh st (Register name email nid now) = (mem_users st nid = None)"
| "fresh st (Create_item item nid now) = (mem_items st nid = None)"
| "fresh st (Borrow loan nid now) = (mem_loans st nid = None)"
| "fresh st (Return iid) = True"

fun ids_fresh :: "store \<Rightarrow> request list \<Rightarrow> bool" where
  "ids_fresh st [] = True"
| "ids_fresh st (r # rs) = (fresh st r \<and> ids_fresh (step st r) rs)"

text \<open>
  A loan is matched when a return of its item occurs in the history after the loan was
  made, that is, after the event \<open>Lent\<close> of that loan.
\<close>

definition matched :: "event list \<Rightarrow> loan_doc \<Rightarrow> bool" where
  "matched log l \<longleftrightarrow> Returned (l_item_id l) \<in> set (dropWhile (\<lambda>e. e \<noteq> Lent (l_id l)) log)"

text \<open>The invariants carried along a run.\<close>

definition points_ok :: "store \<Rightarrow> bool" where
  "points_ok st \<longleftrightarrow> (\<forall>uid u. mem_users st uid = Some u \<longrightarrow> 0 \<le> u_points u)"

definition ledger_inv :: "(string \<rightharpoonup> item_doc) \<Rightarrow> (string \<rightharpoonup> loan_doc) \<Rightarrow> event list \<Rightarrow> bool" where
  "ledger_inv items loans log \<longleftrightarrow>
     (\<forall>lid l. loans lid = Some l \<longrightarrow>
        l_id l = lid \<and> Lent lid \<in> set log \<and> items (l_item_id l) \<noteq> None)
     \<and> (\<forall>lid. Lent lid \<in> set log \<longrightarrow> loans lid \<noteq> None)
     \<and> (\<forall>i it. items i = Some it \<longrightarrow>
          (\<not> i_available it) = (\<exists>lid l. loans lid = Some l \<and> l_item_id l = i \<and> \<not> matched log l))"

section \<open>Example stores\<close>

text \<open>
  A store with an owner \<open>u1\<close>, a second user \<open>u2\<close> holding \<open>p\<close> points and one item
  \<open>i1\<close> of \<open>u1\<close> whose flag is \<open>a\<close>; the theorems below are run on it.
\<close>

definition ex_owner :: user_doc where
  "ex_owner = \<lparr>u_name = ''ana'', u_email = ''ana@example.org'', u_points = 10,
               u_created_at = ''2024-01-01T10:00:00'', u_id = ''u1''\<rparr>"

definition ex_user :: "int \<Rightarrow> user_doc" where
  "ex_user p = \<lparr>u_name = ''bia'', u_email = ''bia@example.org'', u_points = p,
                u_created_at = ''2024-01-01T11:00:00'', u_id = ''u2''\<rparr>"

definition ex_item :: "bool \<Rightarrow> item_doc" where
  "ex_item a = \<lparr>i_name = ''furadeira'', i_description = None, i_owner_id = ''u1'',
                i_available = a, i_created_at = ''2024-01-01T10:30:00'', i_id = ''i1''\<rparr>"

definition ex_store :: "int \<Rightarrow> bool \<Rightarrow> store" where
  "ex_store p a = \<lparr>mem_users = [''u1'' \<mapsto> ex_owner, ''u2'' \<mapsto> ex_user p],
                   mem_items = [''i1'' \<mapsto> ex_item a],
                   mem_loans = Map.empty\<rparr>"

definition ex_loan :: "string \<Rightarrow> LoanCreate" where
  "ex_loan b = \<lparr>item_id = ''i1'', borrower_id = b\<rparr>"

text \<open>A run of item creations, each with its own fresh id and time stamp.\<close>

fun create_items :: "store \<Rightarrow> (ItemCreate \<times> string \<times> string) list \<Rightarrow> store" where
  "create_items st [] = st"
| "create_items st ((item, nid, now) # rs) = create_items (snd (create_item st item nid now)) rs"

definition ex_item_create :: "string \<Rightarrow> ItemCreate" where
  "ex_item_create owner = \<lparr>ic_name = ''escada'', ic_description = Some ''3 metros'', ic_owner_id = owner\<rparr>"


text \<open>
  The scenario of the specification: Ana registers and lists a drill, Bia registers and
  lists a ladder, Bia borrows the drill and gives it back; in \<open>ex_requests\<close> she then
  borrows it once more.
\<close>

definition ex_returned :: "request list" where
  "ex_returned =
     [Register ''Ana'' ''ana@example.org'' ''u1'' ''2024-01-01T10:00:00'',
      Create_item \<lparr>ic_name = ''furadeira'', ic_description = None, ic_owner_id = ''u1''\<rparr>
        ''i1'' ''2024-01-01T10:30:00'',
      Register ''Bia'' ''Bia@Example.org'' ''u2'' ''2024-01-01T11:00:00'',
      Create_item \<lparr>ic_name = ''escada'', ic_description = Some ''3 metros'', ic_owner_id = ''u2''\<rparr>
        ''i2'' ''2024-01-01T11:30:00'',
      Borrow \<lparr>item_id = ''i1'', borrower_id = ''u2''\<rparr> ''l1'' ''2024-01-02T09:00:00'',
      Return ''i1'']"

definition ex_requests :: "request list" where
  "ex_requests =
     ex_returned @ [Borrow \<lparr>item_id = ''i1'', borrower_id = ''u2''\<rparr> ''l2'' ''2024-01-03T09:00:00'']"
section \<open>Borrowing: the failure paths\<close>

lemmas store_defs =
  get_user_store_def get_item_store_def update_user_points_def set_item_availability_def
  create_loan_store_def create_item_store_def create_user_store_def
  POINTS_FOR_BORROW_def POINTS_FOR_LENDING_def Let_def

lemmas ex_defs = ex_owner_def ex_user_def ex_item_def ex_store_def ex_loan_def ex_item_create_def

text \<open>
  C10. When the item exists and is available and the borrower exists with fewer than
  5 points, \<open>borrow_item\<close> answers 403 (insufficient points) and the store it leaves is
  the store it found: users, items and loans are all unchanged.
\<close>

theorem borrow_item_insufficient_points:
  assumes "mem_items st (item_id loan) = Some it" and "i_available it"
    and "mem_users st (borrower_id loan) = Some u" and "u_points u < 5"
  shows "borrow_item st loan nid now = (Inl (HTTPException 403 Insufficient_points), st)"
  using assms by (simp add: borrow_item_def store_defs)


theorem borrow_item_insufficient_points_witness:
  "mem_items (ex_store 4 True) (item_id (ex_loan ''u2'')) = Some (ex_item True)
   \<and> i_available (ex_item True)
   \<and> mem_users (ex_store 4 True) (borrower_id (ex_loan ''u2'')) = Some (ex_user 4)
   \<and> u_points (ex_user 4) < 5
   \<and> borrow_item (ex_store 4 True) (ex_loan ''u2'') ''l1'' ''2024-01-02T09:00:00''
       = (Inl (HTTPException 403 Insufficient_points), ex_store 4 True)"
proof -
  have h1: "mem_items (ex_store 4 True) (item_id (ex_loan ''u2'')) = Some (ex_item True)"
    by (simp add: ex_defs)
  have h2: "i_available (ex_item True)"
    by (simp add: ex_defs)
  have h3: "mem_users (ex_store 4 True) (borrower_id (ex_loan ''u2'')) = Some (ex_user 4)"
    by (simp add: ex_defs)
  have h4: "u_points (ex_user 4) < 5"
    by (simp add: ex_defs)
  from borrow_item_insufficient_points [OF h1 h2 h3 h4] h1 h2 h3 h4
  show ?thesis by blast
qed

text \<open>
  C5. When the item exists and its flag is false, \<open>borrow_item\<close> answers 409 (conflict)
  whatever the borrower id is and whatever points that borrower has; the store is left
  as it was.
\<close>

theorem borrow_item_unavailable_conflict:
  assumes "mem_items st (item_id loan) = Some it" and "\<not> i_available it"
  shows "borrow_item st loan nid now = (Inl (HTTPException 409 Item_already_lent), st)"
  using assms by (simp add: borrow_item_def store_defs)

theorem borrow_item_unavailable_conflict_witness:
  "mem_items (ex_store 100 False) (item_id (ex_loan ''u2'')) = Some (ex_item False)
   \<and> \<not> i_available (ex_item False)
   \<and> u_points (ex_user 100) \<ge> 5
   \<and> borrow_item (ex_store 100 False) (ex_loan ''u2'') ''l1'' ''2024-01-02T09:00:00''
       = (Inl (HTTPException 409 Item_already_lent), ex_store 100 False)"
proof -
  have h1: "mem_items (ex_store 100 False) (item_id (ex_loan ''u2'')) = Some (ex_item False)"
    by (simp add: ex_defs)
  have h2: "\<not> i_available (ex_item False)"
    by (simp add: ex_defs)
  have h3: "u_points (ex_user 100) \<ge> 5"
    by (simp add: ex_defs)
  from borrow_item_unavailable_conflict [OF h1 h2] h1 h2 h3
  show ?thesis by blast
qed

text \<open>
  C6, as stated, does not hold: the availability check of \<open>borrow_item\<close> comes before
  the lookup of the borrower. With the item \<open>i1\<close> on loan and a borrower id \<open>u9\<close> that
  no user has, the answer is 409 and not 404.
\<close>

theorem borrow_item_missing_borrower_counterexample:
  "mem_users (ex_store 0 False) (borrower_id (ex_loan ''u9'')) = None
   \<and> fst (borrow_item (ex_store 0 False) (ex_loan ''u9'') ''l1'' ''2024-01-02T09:00:00'')
       = Inl (HTTPException 409 Item_already_lent)
   \<and> status_code (HTTPException 409 Item_already_lent) \<noteq> 404"
  by (simp add: borrow_item_def store_defs ex_defs)

text \<open>
  C6, amended. The checks of \<open>borrow_item\<close> run in the order: item exists (404), item
  available (409), borrower exists (404), borrower has 5 points (403); the first one that
  fails gives the answer. So a missing borrower is answered 404 only when the item exists
  and is available, and a missing item is answered 404 before anything else.
\<close>

theorem borrow_item_check_order:
  "fst (borrow_item st loan nid now) =
     (case mem_items st (item_id loan) of
        None \<Rightarrow> Inl (HTTPException 404 Item_not_found)
      | Some it \<Rightarrow>
          if \<not> i_available it then Inl (HTTPException 409 Item_already_lent)
          else (case mem_users st (borrower_id loan) of
                  None \<Rightarrow> Inl (HTTPException 404 Borrower_not_found)
                | Some u \<Rightarrow>
                    if u_points u < 5 then Inl (HTTPException 403 Insufficient_points)
                    else Inr ''item emprestado com sucesso''))"
  by (simp add: borrow_item_def store_defs split: option.splits)

theorem borrow_item_check_order_witness:
  "fst (borrow_item (ex_store 7 False) (ex_loan ''u9'') ''l1'' ''2024-01-02T09:00:00'')
     = Inl (HTTPException 409 Item_already_lent)
   \<and> fst (borrow_item (ex_store 7 True) (ex_loan ''u9'') ''l1'' ''2024-01-02T09:00:00'')
     = Inl (HTTPException 404 Borrower_not_found)
   \<and> fst (borrow_item (ex_store 7 True) \<lparr>item_id = ''i9'', borrower_id = ''u9''\<rparr> ''l1'' ''2024-01-02T09:00:00'')
     = Inl (HTTPException 404 Item_not_found)"
  using borrow_item_check_order [of "ex_store 7 False" "ex_loan ''u9''" "''l1''" "''2024-01-02T09:00:00''"]
    borrow_item_check_order [of "ex_store 7 True" "ex_loan ''u9''" "''l1''" "''2024-01-02T09:00:00''"]
    borrow_item_check_order [of "ex_store 7 True" "\<lparr>item_id = ''i9'', borrower_id = ''u9''\<rparr>" "''l1''" "''2024-01-02T09:00:00''"]
  by (simp add: ex_defs)

text \<open>
  C7, as stated, does not hold either, for the same reason: a request whose borrower id
  resolves to no user is answered 409, not 404, when the item is on loan.
\<close>

theorem borrow_item_not_found_counterexample:
  "mem_users (ex_store 10 False) ''u7'' = None
   \<and> \<not> (\<exists>d. fst (borrow_item (ex_store 10 False) \<lparr>item_id = ''i1'', borrower_id = ''u7''\<rparr>
                   ''l2'' ''2024-01-03T09:00:00'') = Inl (HTTPException 404 d))"
  by (simp add: borrow_item_def store_defs ex_defs)

text \<open>
  C7, amended. A borrow request whose item id resolves to no item, or whose borrower id
  resolves to no user, fails and leaves users, items and loans exactly as they were. The
  answer is 404, except that a missing borrower is answered 409 when the item exists and
  is not available.
\<close>

theorem borrow_item_unresolved_no_mutation:
  assumes "mem_items st (item_id loan) = None \<or> mem_users st (borrower_id loan) = None"
  shows "snd (borrow_item st loan nid now) = st
    \<and> (\<exists>e. fst (borrow_item st loan nid now) = Inl e
          \<and> status_code e =
              (case mem_items st (item_id loan) of
                 None \<Rightarrow> 404
               | Some it \<Rightarrow> if i_available it then 404 else 409))"
  using assms by (auto simp add: borrow_item_def store_defs split: option.splits)

theorem borrow_item_unresolved_no_mutation_witness:
  "(mem_items (ex_store 10 True) (item_id (ex_loan ''u7'')) = None
      \<or> mem_users (ex_store 10 True) (borrower_id (ex_loan ''u7'')) = None)
   \<and> snd (borrow_item (ex_store 10 True) (ex_loan ''u7'') ''l2'' ''2024-01-03T09:00:00'')
        = ex_store 10 True
   \<and> (\<exists>e. fst (borrow_item (ex_store 10 True) (ex_loan ''u7'') ''l2'' ''2024-01-03T09:00:00'') = Inl e
         \<and> status_code e = 404)"
proof -
  have h: "mem_items (ex_store 10 True) (item_id (ex_loan ''u7'')) = None
      \<or> mem_users (ex_store 10 True) (borrower_id (ex_loan ''u7'')) = None"
    by (simp add: ex_defs)
  have i: "mem_items (ex_store 10 True) (item_id (ex_loan ''u7'')) = Some (ex_item True)"
    by (simp add: ex_defs)
  have a: "i_available (ex_item True)"
    by (simp add: ex_defs)
  from borrow_item_unresolved_no_mutation [OF h, of "''l2''" "''2024-01-03T09:00:00''"] h
  show ?thesis by (simp add: i a)
qed


section \<open>Borrowing: the success path\<close>

text \<open>
  C1. \<open>borrow_item\<close> succeeds exactly when the item exists with its flag true and the
  borrower exists with at least 5 points. On success the store it leaves is the store it
  found with the borrower's points lowered by 5, the item's flag set to false and one loan
  document, for that item and that borrower, stored under the new id; nothing else
  changes. The new id is one that no loan has yet (\<open>uuid4\<close>), so the loans grow by
  exactly that one document and every other loan stays as it was.
\<close>

theorem borrow_item_success:
  assumes fresh: "mem_loans st nid = None"
  shows "((\<exists>msg. fst (borrow_item st loan nid now) = Inr msg) \<longleftrightarrow>
            (\<exists>it u. mem_items st (item_id loan) = Some it \<and> i_available it
                  \<and> mem_users st (borrower_id loan) = Some u \<and> 5 \<le> u_points u))
    \<and> (\<forall>msg. fst (borrow_item st loan nid now) = Inr msg \<longrightarrow>
          (\<exists>it u. mem_items st (item_id loan) = Some it
             \<and> mem_users st (borrower_id loan) = Some u
             \<and> snd (borrow_item st loan nid now) =
                 st\<lparr>mem_users := (mem_users st)(borrower_id loan \<mapsto> u\<lparr>u_points := u_points u - 5\<rparr>),
                    mem_items := (mem_items st)(item_id loan \<mapsto> it\<lparr>i_available := False\<rparr>),
                    mem_loans := (mem_loans st)(nid \<mapsto>
                       \<lparr>l_item_id = item_id loan, l_borrower_id = borrower_id loan,
                        l_borrowed_at = now, l_id = nid\<rparr>)\<rparr>
             \<and> dom (mem_loans (snd (borrow_item st loan nid now))) = insert nid (dom (mem_loans st))
             \<and> nid \<notin> dom (mem_loans st)
             \<and> (\<forall>k. k \<noteq> nid \<longrightarrow> mem_loans (snd (borrow_item st loan nid now)) k = mem_loans st k)))"
  using fresh
  by (auto simp add: borrow_item_def store_defs split: option.splits)

theorem borrow_item_success_witness:
  "mem_loans (ex_store 7 True) ''l1'' = None
   \<and> borrow_item (ex_store 7 True) (ex_loan ''u2'') ''l1'' ''2024-01-02T09:00:00'' =
       (Inr ''item emprestado com sucesso'',
        \<lparr>mem_users = [''u1'' \<mapsto> ex_owner, ''u2'' \<mapsto> ex_user 2],
         mem_items = [''i1'' \<mapsto> ex_item False],
         mem_loans = [''l1'' \<mapsto> \<lparr>l_item_id = ''i1'', l_borrower_id = ''u2'',
                        l_borrowed_at = ''2024-01-02T09:00:00'', l_id = ''l1''\<rparr>]\<rparr>)"
proof -
  have h: "mem_loans (ex_store 7 True) ''l1'' = None"
    by (simp add: ex_defs)
  have ok: "\<exists>it u. mem_items (ex_store 7 True) (item_id (ex_loan ''u2'')) = Some it \<and> i_available it
                  \<and> mem_users (ex_store 7 True) (borrower_id (ex_loan ''u2'')) = Some u \<and> 5 \<le> u_points u"
    by (simp add: ex_defs)
  from borrow_item_success [OF h, of "ex_loan ''u2''" "''2024-01-02T09:00:00''"] ok
  obtain msg where m: "fst (borrow_item (ex_store 7 True) (ex_loan ''u2'') ''l1'' ''2024-01-02T09:00:00'') = Inr msg"
    by blast
  have "borrow_item (ex_store 7 True) (ex_loan ''u2'') ''l1'' ''2024-01-02T09:00:00'' =
       (Inr ''item emprestado com sucesso'',
        \<lparr>mem_users = [''u1'' \<mapsto> ex_owner, ''u2'' \<mapsto> ex_user 2],
         mem_items = [''i1'' \<mapsto> ex_item False],
         mem_loans = [''l1'' \<mapsto> \<lparr>l_item_id = ''i1'', l_borrower_id = ''u2'',
                        l_borrowed_at = ''2024-01-02T09:00:00'', l_id = ''l1''\<rparr>]\<rparr>)"
    using m by (simp add: borrow_item_def store_defs ex_defs fun_upd_twist)
  with h show ?thesis by simp
qed


section \<open>Returning an item\<close>

text \<open>
  C2. For an id that resolves to an item, \<open>return_item\<close> succeeds and sets the flag to
  true whatever it was before: users (hence every user's points) and loans are left as
  they were, and when the flag was already true the whole store is. For an id that
  resolves to no item it answers 404 and changes nothing.
\<close>

theorem return_item_spec:
  "(\<forall>it. mem_items st iid = Some it \<longrightarrow>
       return_item st iid =
         (Inr ''item devolvido com sucesso'',
          st\<lparr>mem_items := (mem_items st)(iid \<mapsto> it\<lparr>i_available := True\<rparr>)\<rparr>)
       \<and> mem_users (snd (return_item st iid)) = mem_users st
       \<and> mem_loans (snd (return_item st iid)) = mem_loans st
       \<and> (i_available it \<longrightarrow> snd (return_item st iid) = st))
   \<and> (mem_items st iid = None \<longrightarrow>
         return_item st iid = (Inl (HTTPException 404 Item_not_found), st))"
  by (auto simp add: return_item_def store_defs map_upd_triv)

theorem return_item_spec_witness:
  "mem_items (ex_store 3 False) ''i1'' = Some (ex_item False)
   \<and> return_item (ex_store 3 False) ''i1'' = (Inr ''item devolvido com sucesso'', ex_store 3 True)
   \<and> mem_items (ex_store 3 True) ''i1'' = Some (ex_item True)
   \<and> return_item (ex_store 3 True) ''i1'' = (Inr ''item devolvido com sucesso'', ex_store 3 True)
   \<and> mem_items (ex_store 3 True) ''i7'' = None
   \<and> return_item (ex_store 3 True) ''i7'' = (Inl (HTTPException 404 Item_not_found), ex_store 3 True)"
proof -
  have a: "mem_items (ex_store 3 False) ''i1'' = Some (ex_item False)"
    and b: "mem_items (ex_store 3 True) ''i1'' = Some (ex_item True)"
    and c: "mem_items (ex_store 3 True) ''i7'' = None"
    by (simp_all add: ex_defs)
  have u: "(ex_store 3 False)\<lparr>mem_items := (mem_items (ex_store 3 False))(''i1'' \<mapsto> (ex_item False)\<lparr>i_available := True\<rparr>)\<rparr>
             = ex_store 3 True"
    by (simp add: ex_defs)
  have v: "(ex_store 3 True)\<lparr>mem_items := (mem_items (ex_store 3 True))(''i1'' \<mapsto> (ex_item True)\<lparr>i_available := True\<rparr>)\<rparr>
             = ex_store 3 True"
    by (simp add: ex_defs)
  from return_item_spec [of "ex_store 3 False" "''i1''"] a u
  have 1: "return_item (ex_store 3 False) ''i1'' = (Inr ''item devolvido com sucesso'', ex_store 3 True)"
    by simp
  from return_item_spec [of "ex_store 3 True" "''i1''"] b v
  have 2: "return_item (ex_store 3 True) ''i1'' = (Inr ''item devolvido com sucesso'', ex_store 3 True)"
    by simp
  from return_item_spec [of "ex_store 3 True" "''i7''"] c
  have 3: "return_item (ex_store 3 True) ''i7'' = (Inl (HTTPException 404 Item_not_found), ex_store 3 True)"
    by simp
  from a b c 1 2 3 show ?thesis by simp
qed


section \<open>Creating an item\<close>

lemma create_item_owner_points:
  assumes "mem_users st (ic_owner_id item) = Some owner"
  shows "mem_users (snd (create_item st item nid now)) =
           (mem_users st)(ic_owner_id item \<mapsto> owner\<lparr>u_points := u_points owner + 10\<rparr>)"
  using assms by (simp add: create_item_def store_defs)

lemma create_items_points:
  assumes "mem_users st uid = Some owner"
    and "\<forall>r \<in> set rs. ic_owner_id (fst r) = uid"
  shows "\<exists>owner'. mem_users (create_items st rs) uid = Some owner'
           \<and> u_points owner' = u_points owner + 10 * int (length rs)"
  using assms
proof (induction rs arbitrary: st owner)
  case Nil
  then show ?case by simp
next
  case (Cons r rs)
  obtain item nid now where r: "r = (item, nid, now)"
    by (cases r) auto
  from Cons.prems r have o: "mem_users st (ic_owner_id item) = Some owner" and u: "ic_owner_id item = uid"
    by auto
  let ?st1 = "snd (create_item st item nid now)"
  from create_item_owner_points [OF o] u
  have "mem_users ?st1 uid = Some (owner\<lparr>u_points := u_points owner + 10\<rparr>)"
    by simp
  from Cons.IH [OF this] Cons.prems(2)
  show ?case by (auto simp add: r)
qed


text \<open>
  C3. \<open>create_item\<close> answers 404 when the owner id resolves to no user. Otherwise it
  succeeds: the item is stored under the new id with its flag true and the owner's points
  go up by exactly 10. Nothing caps the points: after any run of creations for the same
  owner the points are the old ones plus 10 for each item.
\<close>

theorem create_item_spec:
  "(mem_users st (ic_owner_id item) = None \<longrightarrow>
       create_item st item nid now = (Inl (HTTPException 404 Owner_not_found), st))
   \<and> (\<forall>owner. mem_users st (ic_owner_id item) = Some owner \<longrightarrow>
         create_item st item nid now =
           (Inr \<lparr>io_id = nid, io_name = ic_name item, io_description = ic_description item,
                 io_owner_id = ic_owner_id item, io_available = True\<rparr>,
            st\<lparr>mem_items := (mem_items st)(nid \<mapsto>
                    \<lparr>i_name = ic_name item, i_description = ic_description item,
                     i_owner_id = ic_owner_id item, i_available = True,
                     i_created_at = now, i_id = nid\<rparr>),
               mem_users := (mem_users st)(ic_owner_id item \<mapsto>
                    owner\<lparr>u_points := u_points owner + 10\<rparr>)\<rparr>))
   \<and> (\<forall>owner. mem_users st uid = Some owner \<and> (\<forall>r \<in> set rs. ic_owner_id (fst r) = uid) \<longrightarrow>
         (\<exists>owner'. mem_users (create_items st rs) uid = Some owner'
             \<and> u_points owner' = u_points owner + 10 * int (length rs)))"
proof (intro conjI allI impI)
  assume "mem_users st (ic_owner_id item) = None"
  then show "create_item st item nid now = (Inl (HTTPException 404 Owner_not_found), st)"
    by (simp add: create_item_def store_defs)
next
  fix owner
  assume "mem_users st (ic_owner_id item) = Some owner"
  then show "create_item st item nid now =
           (Inr \<lparr>io_id = nid, io_name = ic_name item, io_description = ic_description item,
                 io_owner_id = ic_owner_id item, io_available = True\<rparr>,
            st\<lparr>mem_items := (mem_items st)(nid \<mapsto>
                    \<lparr>i_name = ic_name item, i_description = ic_description item,
                     i_owner_id = ic_owner_id item, i_available = True,
                     i_created_at = now, i_id = nid\<rparr>),
               mem_users := (mem_users st)(ic_owner_id item \<mapsto>
                    owner\<lparr>u_points := u_points owner + 10\<rparr>)\<rparr>)"
    by (simp add: create_item_def store_defs)
next
  fix owner
  assume "mem_users st uid = Some owner \<and> (\<forall>r \<in> set rs. ic_owner_id (fst r) = uid)"
  then show "\<exists>owner'. mem_users (create_items st rs) uid = Some owner'
             \<and> u_points owner' = u_points owner + 10 * int (length rs)"
    using create_items_points by blast
qed

theorem create_item_spec_witness:
  "mem_users (ex_store 0 True) (ic_owner_id (ex_item_create ''u5'')) = None
   \<and> create_item (ex_store 0 True) (ex_item_create ''u5'') ''i2'' ''2024-01-04T08:00:00''
        = (Inl (HTTPException 404 Owner_not_found), ex_store 0 True)
   \<and> mem_users (ex_store 0 True) (ic_owner_id (ex_item_create ''u2'')) = Some (ex_user 0)
   \<and> (\<exists>out st'. create_item (ex_store 0 True) (ex_item_create ''u2'') ''i2'' ''2024-01-04T08:00:00'' = (Inr out, st')
          \<and> io_available out
          \<and> mem_users st' ''u2'' = Some (ex_user 10)
          \<and> (\<exists>d. mem_items st' ''i2'' = Some d \<and> i_available d))
   \<and> (\<exists>owner'. mem_users (create_items (ex_store 0 True)
                    [(ex_item_create ''u2'', ''i2'', ''2024-01-04T08:00:00''),
                     (ex_item_create ''u2'', ''i3'', ''2024-01-04T08:05:00''),
                     (ex_item_create ''u2'', ''i4'', ''2024-01-04T08:10:00'')]) ''u2'' = Some owner'
          \<and> u_points owner' = 30)"
proof -
  let ?rs = "[(ex_item_create ''u2'', ''i2'', ''2024-01-04T08:00:00''),
              (ex_item_create ''u2'', ''i3'', ''2024-01-04T08:05:00''),
              (ex_item_create ''u2'', ''i4'', ''2024-01-04T08:10:00'')]"
  have a: "mem_users (ex_store 0 True) (ic_owner_id (ex_item_create ''u5'')) = None"
    and b: "mem_users (ex_store 0 True) (ic_owner_id (ex_item_create ''u2'')) = Some (ex_user 0)"
    and c: "mem_users (ex_store 0 True) ''u2'' = Some (ex_user 0)"
    and d: "\<forall>r \<in> set ?rs. ic_owner_id (fst r) = ''u2''"
    and e: "u_points (ex_user 0) = 0"
    and f: "(ex_user 0)\<lparr>u_points := u_points (ex_user 0) + 10\<rparr> = ex_user 10"
    and g: "ic_owner_id (ex_item_create ''u2'') = ''u2''"
    by (simp_all add: ex_defs)
  note t1 = create_item_spec [of "ex_store 0 True" "ex_item_create ''u5''" "''i2''" "''2024-01-04T08:00:00''" "''u2''" ?rs]
  note t2 = create_item_spec [of "ex_store 0 True" "ex_item_create ''u2''" "''i2''" "''2024-01-04T08:00:00''" "''u2''" ?rs]
  from t1 [THEN conjunct1, rule_format, OF a]
  have 1: "create_item (ex_store 0 True) (ex_item_create ''u5'') ''i2'' ''2024-01-04T08:00:00''
        = (Inl (HTTPException 404 Owner_not_found), ex_store 0 True)" .
  from t2 [THEN conjunct2, THEN conjunct1, rule_format, OF b] f g
  have 2: "\<exists>out st'. create_item (ex_store 0 True) (ex_item_create ''u2'') ''i2'' ''2024-01-04T08:00:00'' = (Inr out, st')
          \<and> io_available out
          \<and> mem_users st' ''u2'' = Some (ex_user 10)
          \<and> (\<exists>d. mem_items st' ''i2'' = Some d \<and> i_available d)"
    by simp
  from t2 [THEN conjunct2, THEN conjunct2, rule_format, OF conjI, OF c d] e
  have 3: "\<exists>owner'. mem_users (create_items (ex_store 0 True) ?rs) ''u2'' = Some owner'
          \<and> u_points owner' = 30"
    by simp
  from a b 1 2 3 show ?thesis by blast
qed


section \<open>Registration\<close>

lemma re_match_Many1:
  "re_match (Many1 a # ps) s \<longleftrightarrow>
     (\<exists>n. 0 < n \<and> n \<le> length s \<and> (\<forall>k<n. accepts a (s ! k)) \<and> re_match ps (drop n s))"
proof (induction s)
  case Nil
  then show ?case by simp
next
  case (Cons c s)
  show ?case
  proof
    assume "re_match (Many1 a # ps) (c # s)"
    then have c: "accepts a c" and d: "re_match (Many1 a # ps) s \<or> re_match ps s"
      by auto
    from d show "\<exists>n. 0 < n \<and> n \<le> length (c # s) \<and> (\<forall>k<n. accepts a ((c # s) ! k)) \<and> re_match ps (drop n (c # s))"
    proof
      assume "re_match (Many1 a # ps) s"
      with Cons.IH obtain n where n: "0 < n" "n \<le> length s" "\<forall>k<n. accepts a (s ! k)" "re_match ps (drop n s)"
        by blast
      have "\<forall>k<Suc n. accepts a ((c # s) ! k)"
        using c n(3) by (auto simp add: nth_Cons split: nat.splits)
      with n show ?thesis
        by (intro exI [of _ "Suc n"]) simp
    next
      assume "re_match ps s"
      with c show ?thesis
        by (intro exI [of _ "Suc 0"]) simp
    qed
  next
    assume "\<exists>n. 0 < n \<and> n \<le> length (c # s) \<and> (\<forall>k<n. accepts a ((c # s) ! k)) \<and> re_match ps (drop n (c # s))"
    then obtain n where n: "0 < n" "n \<le> length (c # s)" "\<forall>k<n. accepts a ((c # s) ! k)" "re_match ps (drop n (c # s))"
      by blast
    from n(1) obtain m where m: "n = Suc m"
      by (cases n) auto
    from n(3) m have c: "accepts a c"
      by auto
    show "re_match (Many1 a # ps) (c # s)"
    proof (cases m)
      case 0
      with n(4) m c show ?thesis by simp
    next
      case (Suc m')
      have "\<forall>k<m. accepts a (s ! k)"
        using n(3) m by (metis Suc_less_eq nth_Cons_Suc)
      with n m Suc have "re_match (Many1 a # ps) s"
        using Cons.IH by auto
      with c show ?thesis by simp
    qed
  qed
qed

lemma re_match_One:
  "re_match (One a # ps) s \<longleftrightarrow> (0 < length s \<and> accepts a (s ! 0) \<and> re_match ps (drop 1 s))"
  by (cases s) auto


lemma re_match_email_pattern:
  "re_match email_pattern v \<longleftrightarrow>
     (\<exists>i j. 0 < i \<and> (\<forall>k<i. v ! k \<noteq> CHR ''@'') \<and> i < length v \<and> v ! i = CHR ''@''
        \<and> i + 1 < j \<and> (\<forall>k. i < k \<and> k < j \<longrightarrow> v ! k \<noteq> CHR ''@'')
        \<and> j + 1 < length v \<and> v ! j = CHR ''.'' \<and> v ! (j + 1) \<noteq> CHR ''@'')"
  (is "?L \<longleftrightarrow> ?R")
proof
  assume ?L
  then obtain n1 where n1: "0 < n1" "n1 \<le> length v" "\<forall>k<n1. v ! k \<noteq> CHR ''@''"
    and r1: "re_match [One (Lit (CHR ''@'')), Many1 (Not_lit (CHR ''@'')), One (Lit (CHR ''.'')),
               Many1 (Not_lit (CHR ''@''))] (drop n1 v)"
    unfolding email_pattern_def re_match_Many1 [of _ _ v] by auto
  from r1 have a: "n1 < length v" "v ! n1 = CHR ''@''"
    and r2: "re_match [Many1 (Not_lit (CHR ''@'')), One (Lit (CHR ''.'')),
               Many1 (Not_lit (CHR ''@''))] (drop (Suc n1) v)"
    unfolding re_match_One by auto
  from r2 obtain n2 where n2: "0 < n2" "n2 \<le> length v - Suc n1"
      "\<forall>k<n2. v ! (Suc n1 + k) \<noteq> CHR ''@''"
    and r3: "re_match [One (Lit (CHR ''.'')), Many1 (Not_lit (CHR ''@''))] (drop (n2 + Suc n1) v)"
    unfolding re_match_Many1 [of _ _ "drop (Suc n1) v"] by auto
  from r3 have b: "n2 + Suc n1 < length v" "v ! (n2 + Suc n1) = CHR ''.''"
    and r4: "re_match [Many1 (Not_lit (CHR ''@''))] (drop (Suc (n2 + Suc n1)) v)"
    unfolding re_match_One by (auto simp add: add.commute)
  from r4 obtain n3 where n3: "0 < n3" "n3 \<le> length v - Suc (n2 + Suc n1)"
      "\<forall>k<n3. v ! (Suc (n2 + Suc n1) + k) \<noteq> CHR ''@''"
    unfolding re_match_Many1 [of _ _ "drop (Suc (n2 + Suc n1)) v"] by auto
  have mid: "\<forall>k. n1 < k \<and> k < n2 + Suc n1 \<longrightarrow> v ! k \<noteq> CHR ''@''"
  proof (intro allI impI)
    fix k assume k: "n1 < k \<and> k < n2 + Suc n1"
    then have "k - Suc n1 < n2" and "Suc n1 + (k - Suc n1) = k" by auto
    with n2(3) show "v ! k \<noteq> CHR ''@''" by metis
  qed
  from n3(1) n3(3) have last: "v ! (Suc (n2 + Suc n1)) \<noteq> CHR ''@''"
    by (metis add.right_neutral)
  show ?R
    apply (rule exI [of _ n1], rule exI [of _ "n2 + Suc n1"])
    using n1 a n2 b n3 mid last by auto
next
  assume ?R
  then obtain i j where i: "0 < i" "\<forall>k<i. v ! k \<noteq> CHR ''@''" "i < length v" "v ! i = CHR ''@''"
    and j: "i + 1 < j" "\<forall>k. i < k \<and> k < j \<longrightarrow> v ! k \<noteq> CHR ''@''" "j + 1 < length v"
       "v ! j = CHR ''.''" "v ! (j + 1) \<noteq> CHR ''@''"
    by blast
  have r4: "re_match [Many1 (Not_lit (CHR ''@''))] (drop (Suc j) v)"
    unfolding re_match_Many1 [of _ _ "drop (Suc j) v"]
    using j by (intro exI [of _ 1]) auto
  have r3: "re_match [One (Lit (CHR ''.'')), Many1 (Not_lit (CHR ''@''))] (drop j v)"
    unfolding re_match_One using r4 j by auto
  have r2: "re_match [Many1 (Not_lit (CHR ''@'')), One (Lit (CHR ''.'')),
               Many1 (Not_lit (CHR ''@''))] (drop (Suc i) v)"
    unfolding re_match_Many1 [of _ _ "drop (Suc i) v"]
    using r3 j i by (intro exI [of _ "j - Suc i"]) auto
  have r1: "re_match [One (Lit (CHR ''@'')), Many1 (Not_lit (CHR ''@'')), One (Lit (CHR ''.'')),
               Many1 (Not_lit (CHR ''@''))] (drop i v)"
    unfolding re_match_One using r2 i by auto
  show ?L
    unfolding email_pattern_def re_match_Many1 [of _ _ v]
    using r1 i by (intro exI [of _ i]) auto
qed

lemma email_shape_accepted:
  assumes "email_shape v"
  shows "re_match email_pattern v"
proof -
  from assms obtain i j where ij: "i < length v" "i + 1 \<le> j" "j < length v"
      "v ! i = CHR ''@''" "v ! j = CHR ''.''"
    and l: "is_text (take i v)"
    and d: "is_text (take (j - (i + 1)) (drop (i + 1) v))"
    and t: "is_text (drop (j + 1) v)"
    unfolding email_shape_def by auto
  from l have l1: "0 < i" and l2: "\<forall>k<i. v ! k \<noteq> CHR ''@''"
    using ij(1) by (auto simp add: is_text_def in_set_conv_nth)
  from d have d1: "i + 1 < j"
    by (auto simp add: is_text_def)
  have d2: "\<forall>k. i < k \<and> k < j \<longrightarrow> v ! k \<noteq> CHR ''@''"
  proof (intro allI impI)
    fix k assume k: "i < k \<and> k < j"
    let ?m = "take (j - (i + 1)) (drop (i + 1) v)"
    from k ij have "k - (i + 1) < length ?m" by auto
    moreover from k ij have "?m ! (k - (i + 1)) = v ! k" by auto
    ultimately have "v ! k \<in> set ?m"
      by (metis nth_mem)
    with d show "v ! k \<noteq> CHR ''@''"
      by (auto simp add: is_text_def)
  qed
  from t have t1: "j + 1 < length v"
    by (auto simp add: is_text_def)
  then have "v ! (j + 1) \<in> set (drop (j + 1) v)"
    by (metis Cons_nth_drop_Suc list.set_intros(1))
  with t have t2: "v ! (j + 1) \<noteq> CHR ''@''"
    by (auto simp add: is_text_def)
  show ?thesis
    unfolding re_match_email_pattern
    using l1 l2 ij d1 d2 t1 t2 by blast
qed

lemma py_isspace_lower: "py_isspace (py_lower_char c) = py_isspace c"
  by (auto simp add: py_isspace_def py_lower_char_def Let_def of_char_of)

lemma py_strip_lower: "py_strip (py_lower s) = py_lower (py_strip s)"
proof -
  have c: "py_isspace \<circ> py_lower_char = py_isspace"
    by (rule ext) (simp add: py_isspace_lower)
  show ?thesis
    by (simp add: py_strip_def py_lower_def dropWhile_map rev_map c)
qed


lemmas user_defs = post_users_def UserCreate_validate_def UserOut_validate_def simple_email_def
  create_user_def

lemma post_users_rejects:
  assumes "\<not> re_match email_pattern email"
  shows "post_users st name email nid now = (Inl RequestValidationError, st)"
  using assms by (simp add: user_defs)

lemma post_users_store:
  "snd (post_users st name email nid now) =
     (if name \<noteq> [] \<and> re_match email_pattern email
      then st\<lparr>mem_users := (mem_users st)(nid \<mapsto>
              \<lparr>u_name = name, u_email = py_strip (py_lower email), u_points = 0,
               u_created_at = now, u_id = nid\<rparr>)\<rparr>
      else st)"
  by (simp add: user_defs store_defs split: sum.splits)

lemma post_users_answer:
  assumes "post_users st name email nid now = (Inr out, st')"
  shows "name \<noteq> [] \<and> re_match email_pattern email \<and> uo_id out = nid \<and> uo_points out = 0"
  using assms by (auto simp add: user_defs store_defs split: if_splits sum.splits)

lemma post_users_answer_refused:
  "post_users empty_store ''Bia'' ''a@b. '' ''u2'' ''2024-01-01T11:00:00'' =
     (Inl ResponseValidationError,
      \<lparr>mem_users = [''u2'' \<mapsto> \<lparr>u_name = ''Bia'', u_email = ''a@b.'', u_points = 0,
                      u_created_at = ''2024-01-01T11:00:00'', u_id = ''u2''\<rparr>],
       mem_items = Map.empty, mem_loans = Map.empty\<rparr>)"
  by (simp add: user_defs store_defs email_pattern_def empty_store_def py_strip_def py_lower_def
      py_lower_char_def py_isspace_def char_of_def bit_0)

text \<open>
  C4. The claim: an email that is not of the shape \<open>local@domain.tld\<close> is refused with a
  validation error, and an accepted one is stored lower-cased and stripped, with 0 points.
  The second half holds (\<open>post_users_store\<close>; by \<open>py_strip_lower\<close> the order of the
  two string operations does not matter), and every email of the shape is accepted
  (\<open>email_shape_accepted\<close>). The first half does not hold of the code: \<open>re.match\<close>
  matches at the start of the string and the pattern has no end anchor, so the last
  \<^verbatim>\<open>[^@]+\<close> keeps an \<open>@\<close> out of the first character after the dot only
  (\<open>re_match_email_pattern\<close>). The email \<open>a@b.c@d\<close> is not of the shape, yet the route
  stores the user and answers with it; the same second \<open>@\<close> before the dot, \<open>a@b@c.d\<close>,
  is refused.
\<close>

theorem post_users_accepts_second_at:
  "\<not> email_shape ''a@b.c@d''
   \<and> post_users empty_store ''Bia'' ''a@b.c@d'' ''u2'' ''2024-01-01T11:00:00'' =
       (Inr \<lparr>uo_id = ''u2'', uo_name = ''Bia'', uo_email = ''a@b.c@d'', uo_points = 0\<rparr>,
        \<lparr>mem_users = [''u2'' \<mapsto> \<lparr>u_name = ''Bia'', u_email = ''a@b.c@d'', u_points = 0,
                        u_created_at = ''2024-01-01T11:00:00'', u_id = ''u2''\<rparr>],
         mem_items = Map.empty, mem_loans = Map.empty\<rparr>)
   \<and> \<not> email_shape ''a@b@c.d''
   \<and> post_users empty_store ''Bia'' ''a@b@c.d'' ''u2'' ''2024-01-01T11:00:00'' =
       (Inl RequestValidationError, empty_store)"
proof -
  have 1: "\<not> email_shape ''a@b.c@d''"
    by code_simp
  have 2: "post_users empty_store ''Bia'' ''a@b.c@d'' ''u2'' ''2024-01-01T11:00:00'' =
       (Inr \<lparr>uo_id = ''u2'', uo_name = ''Bia'', uo_email = ''a@b.c@d'', uo_points = 0\<rparr>,
        \<lparr>mem_users = [''u2'' \<mapsto> \<lparr>u_name = ''Bia'', u_email = ''a@b.c@d'', u_points = 0,
                        u_created_at = ''2024-01-01T11:00:00'', u_id = ''u2''\<rparr>],
         mem_items = Map.empty, mem_loans = Map.empty\<rparr>)"
    by (simp add: user_defs store_defs email_pattern_def empty_store_def py_strip_def py_lower_def
        py_lower_char_def py_isspace_def char_of_def bit_0)
  have 3: "\<not> email_shape ''a@b@c.d''"
    by code_simp
  have 4: "post_users empty_store ''Bia'' ''a@b@c.d'' ''u2'' ''2024-01-01T11:00:00'' =
       (Inl RequestValidationError, empty_store)"
    by (simp add: user_defs email_pattern_def)
  from 1 2 3 4 show ?thesis by blast
qed

section \<open>Invariants of every run\<close>

lemmas eval_defs = user_defs store_defs email_pattern_def empty_store_def py_strip_def py_lower_def
  py_lower_char_def py_isspace_def char_of_def bit_0 borrow_item_def return_item_def create_item_def
  ex_requests_def ex_returned_def

subsection \<open>Points\<close>

lemma step_points_ok:
  assumes "points_ok st"
  shows "points_ok (step st r)"
proof (cases r)
  case (Register name email nid now)
  with assms show ?thesis
    by (auto simp add: points_ok_def user_defs store_defs split: if_splits sum.splits)
next
  case (Create_item item nid now)
  with assms show ?thesis
    by (auto simp add: points_ok_def create_item_def store_defs split: if_splits option.splits)
next
  case (Borrow loan nid now)
  with assms show ?thesis
    by (auto simp add: points_ok_def borrow_item_def store_defs split: if_splits option.splits)
next
  case (Return iid)
  with assms show ?thesis
    by (auto simp add: points_ok_def return_item_def store_defs split: if_splits option.splits)
qed

lemma run_points_ok: "points_ok st \<Longrightarrow> points_ok (run st rs)"
  by (induction rs arbitrary: st) (simp_all add: step_points_ok)

text \<open>
  C8. In every store reached from the empty one by any list of register, item-create,
  borrow and return requests, every user's points are at least 0: a user starts with 0,
  item creation adds 10, and borrowing takes 5 only after checking that 5 are there.
\<close>

theorem points_never_negative:
  assumes "mem_users (run empty_store rs) uid = Some u"
  shows "0 \<le> u_points u"
proof -
  have "points_ok empty_store"
    by (simp add: points_ok_def empty_store_def)
  then have "points_ok (run empty_store rs)"
    by (rule run_points_ok)
  with assms show ?thesis
    by (simp add: points_ok_def)
qed



lemma ex_run_points: "\<exists>u. mem_users (run empty_store ex_requests) ''u2'' = Some u \<and> u_points u = 0"
  by (simp add: eval_defs)

theorem points_never_negative_witness:
  "\<exists>u. mem_users (run empty_store ex_requests) ''u2'' = Some u \<and> 0 \<le> u_points u"
proof -
  from ex_run_points obtain u where u: "mem_users (run empty_store ex_requests) ''u2'' = Some u"
    by blast
  from points_never_negative [OF u] u show ?thesis
    by blast
qed

subsection \<open>matched, as the log grows\<close>

lemma matched_snoc:
  assumes "Lent (l_id l) \<in> set log"
  shows "matched (log @ [e]) l \<longleftrightarrow> matched log l \<or> e = Returned (l_item_id l)"
proof -
  from assms have "\<exists>x \<in> set log. \<not> (x \<noteq> Lent (l_id l))"
    by blast
  then have "dropWhile (\<lambda>e. e \<noteq> Lent (l_id l)) (log @ [e])
               = dropWhile (\<lambda>e. e \<noteq> Lent (l_id l)) log @ [e]"
    by (simp add: dropWhile_append1)
  then show ?thesis
    by (auto simp add: matched_def)
qed

lemma matched_new:
  assumes "Lent (l_id l) \<notin> set log"
  shows "\<not> matched (log @ [Lent (l_id l)]) l"
proof -
  from assms have "\<forall>x \<in> set log. x \<noteq> Lent (l_id l)"
    by blast
  then have "dropWhile (\<lambda>e. e \<noteq> Lent (l_id l)) (log @ [Lent (l_id l)]) = [Lent (l_id l)]"
    by (simp add: dropWhile_append2)
  then show ?thesis
    by (simp add: matched_def)
qed

subsection \<open>The invariant under each kind of write\<close>

lemma ledger_inv_new_item:
  assumes inv: "ledger_inv items loans log"
    and new: "items nid = None" and av: "i_available d"
  shows "ledger_inv (items(nid \<mapsto> d)) loans log"
  unfolding ledger_inv_def
proof (intro conjI allI impI)
  fix lid l assume "loans lid = Some l"
  with inv have "l_id l = lid" "Lent lid \<in> set log" "items (l_item_id l) \<noteq> None"
    by (auto simp add: ledger_inv_def)
  then show "l_id l = lid" "Lent lid \<in> set log" "(items(nid \<mapsto> d)) (l_item_id l) \<noteq> None"
    by auto
next
  fix lid assume "Lent lid \<in> set log"
  with inv show "loans lid \<noteq> None"
    by (auto simp add: ledger_inv_def)
next
  fix i it assume it: "(items(nid \<mapsto> d)) i = Some it"
  show "(\<not> i_available it) = (\<exists>lid l. loans lid = Some l \<and> l_item_id l = i \<and> \<not> matched log l)"
  proof (cases "i = nid")
    case True
    have "\<not> (\<exists>lid l. loans lid = Some l \<and> l_item_id l = nid)"
    proof
      assume "\<exists>lid l. loans lid = Some l \<and> l_item_id l = nid"
      then obtain lid l where "loans lid = Some l" "l_item_id l = nid"
        by blast
      with inv have "items nid \<noteq> None"
        unfolding ledger_inv_def by blast
      with new show False by simp
    qed
    with True it av show ?thesis by auto
  next
    case False
    with it have "items i = Some it" by simp
    with inv show ?thesis
      unfolding ledger_inv_def by blast
  qed
qed

lemma ledger_inv_lend:
  assumes inv: "ledger_inv items loans log"
    and it: "items i = Some it"
    and new: "loans nid = None"
    and l: "l_id l = nid" "l_item_id l = i"
  shows "ledger_inv (items(i \<mapsto> it\<lparr>i_available := False\<rparr>)) (loans(nid \<mapsto> l)) (log @ [Lent nid])"
  unfolding ledger_inv_def
proof (intro conjI allI impI)
  fix lid k assume k: "(loans(nid \<mapsto> l)) lid = Some k"
  show "l_id k = lid"
    using k inv l by (auto simp add: ledger_inv_def split: if_splits)
  show "Lent lid \<in> set (log @ [Lent nid])"
    using k inv l by (auto simp add: ledger_inv_def split: if_splits)
  show "(items(i \<mapsto> it\<lparr>i_available := False\<rparr>)) (l_item_id k) \<noteq> None"
    using k inv l by (auto simp add: ledger_inv_def split: if_splits)
next
  fix lid assume "Lent lid \<in> set (log @ [Lent nid])"
  with inv show "(loans(nid \<mapsto> l)) lid \<noteq> None"
    by (auto simp add: ledger_inv_def)
next
  fix j jt assume jt: "(items(i \<mapsto> it\<lparr>i_available := False\<rparr>)) j = Some jt"
  from inv new have notin: "Lent nid \<notin> set log"
    by (auto simp add: ledger_inv_def)
  have old: "matched (log @ [Lent nid]) k = matched log k" if "loans lid = Some k" for lid k
  proof -
    from that inv have "Lent (l_id k) \<in> set log"
      by (auto simp add: ledger_inv_def)
    then show ?thesis by (simp add: matched_snoc)
  qed
  show "(\<not> i_available jt) =
          (\<exists>lid k. (loans(nid \<mapsto> l)) lid = Some k \<and> l_item_id k = j \<and> \<not> matched (log @ [Lent nid]) k)"
  proof (cases "j = i")
    case True
    from notin l have "\<not> matched (log @ [Lent nid]) l"
      using matched_new [of l log] by simp
    then have "\<exists>lid k. (loans(nid \<mapsto> l)) lid = Some k \<and> l_item_id k = j \<and> \<not> matched (log @ [Lent nid]) k"
      using l True by (intro exI [of _ nid] exI [of _ l]) simp
    with True jt show ?thesis by auto
  next
    case False
    with jt have j: "items j = Some jt" by simp
    with inv have eq: "(\<not> i_available jt) = (\<exists>lid k. loans lid = Some k \<and> l_item_id k = j \<and> \<not> matched log k)"
      unfolding ledger_inv_def by blast
    have "(\<exists>lid k. (loans(nid \<mapsto> l)) lid = Some k \<and> l_item_id k = j \<and> \<not> matched (log @ [Lent nid]) k)
           = (\<exists>lid k. loans lid = Some k \<and> l_item_id k = j \<and> \<not> matched log k)"
    proof
      assume "\<exists>lid k. (loans(nid \<mapsto> l)) lid = Some k \<and> l_item_id k = j \<and> \<not> matched (log @ [Lent nid]) k"
      then obtain lid k where k: "(loans(nid \<mapsto> l)) lid = Some k" "l_item_id k = j"
          "\<not> matched (log @ [Lent nid]) k"
        by blast
      from k(1,2) l False have "lid \<noteq> nid" by auto
      with k(1) have lk: "loans lid = Some k" by simp
      with k old show "\<exists>lid k. loans lid = Some k \<and> l_item_id k = j \<and> \<not> matched log k"
        by blast
    next
      assume "\<exists>lid k. loans lid = Some k \<and> l_item_id k = j \<and> \<not> matched log k"
      then obtain lid k where k: "loans lid = Some k" "l_item_id k = j" "\<not> matched log k"
        by blast
      from k(1) new have "lid \<noteq> nid" by auto
      with k(1) have "(loans(nid \<mapsto> l)) lid = Some k" by simp
      with k old show "\<exists>lid k. (loans(nid \<mapsto> l)) lid = Some k \<and> l_item_id k = j \<and> \<not> matched (log @ [Lent nid]) k"
        by blast
    qed
    with eq show ?thesis by simp
  qed
qed

lemma ledger_inv_give_back:
  assumes inv: "ledger_inv items loans log"
    and it: "items i = Some it"
  shows "ledger_inv (items(i \<mapsto> it\<lparr>i_available := True\<rparr>)) loans (log @ [Returned i])"
  unfolding ledger_inv_def
proof (intro conjI allI impI)
  fix lid l assume "loans lid = Some l"
  with inv have "l_id l = lid" "Lent lid \<in> set log" "items (l_item_id l) \<noteq> None"
    by (auto simp add: ledger_inv_def)
  then show "l_id l = lid" "Lent lid \<in> set (log @ [Returned i])"
      "(items(i \<mapsto> it\<lparr>i_available := True\<rparr>)) (l_item_id l) \<noteq> None"
    by auto
next
  fix lid assume "Lent lid \<in> set (log @ [Returned i])"
  with inv show "loans lid \<noteq> None"
    by (auto simp add: ledger_inv_def)
next
  fix j jt assume jt: "(items(i \<mapsto> it\<lparr>i_available := True\<rparr>)) j = Some jt"
  have step: "matched (log @ [Returned i]) k = (matched log k \<or> l_item_id k = i)"
    if "loans lid = Some k" for lid k
  proof -
    from that inv have "Lent (l_id k) \<in> set log"
      by (auto simp add: ledger_inv_def)
    then show ?thesis by (auto simp add: matched_snoc)
  qed
  show "(\<not> i_available jt) =
          (\<exists>lid k. loans lid = Some k \<and> l_item_id k = j \<and> \<not> matched (log @ [Returned i]) k)"
  proof (cases "j = i")
    case True
    with step have "\<not> (\<exists>lid k. loans lid = Some k \<and> l_item_id k = j \<and> \<not> matched (log @ [Returned i]) k)"
      by blast
    with True jt show ?thesis by auto
  next
    case False
    with jt have "items j = Some jt" by simp
    with inv have eq: "(\<not> i_available jt) = (\<exists>lid k. loans lid = Some k \<and> l_item_id k = j \<and> \<not> matched log k)"
      unfolding ledger_inv_def by blast
    from step False
    have "(\<exists>lid k. loans lid = Some k \<and> l_item_id k = j \<and> \<not> matched (log @ [Returned i]) k)
           = (\<exists>lid k. loans lid = Some k \<and> l_item_id k = j \<and> \<not> matched log k)"
      by blast
    with eq show ?thesis by simp
  qed
qed


subsection \<open>What each request writes\<close>

lemma post_users_keeps:
  "mem_items (snd (post_users st name email nid now)) = mem_items st"
  "mem_loans (snd (post_users st name email nid now)) = mem_loans st"
  by (auto simp add: user_defs store_defs split: sum.splits)

lemma create_item_writes:
  "(snd (create_item st item nid now) = st)
   \<or> (mem_items (snd (create_item st item nid now)) =
          (mem_items st)(nid \<mapsto> \<lparr>i_name = ic_name item, i_description = ic_description item,
                 i_owner_id = ic_owner_id item, i_available = True,
                 i_created_at = now, i_id = nid\<rparr>)
         \<and> mem_loans (snd (create_item st item nid now)) = mem_loans st)"
  by (auto simp add: create_item_def store_defs split: option.splits)

lemma borrow_item_writes:
  "(snd (borrow_item st loan nid now) = st \<and> (\<exists>e. fst (borrow_item st loan nid now) = Inl e))
   \<or> (\<exists>it m. mem_items st (item_id loan) = Some it
         \<and> fst (borrow_item st loan nid now) = Inr m
         \<and> mem_items (snd (borrow_item st loan nid now))
              = (mem_items st)(item_id loan \<mapsto> it\<lparr>i_available := False\<rparr>)
         \<and> mem_loans (snd (borrow_item st loan nid now)) =
             (mem_loans st)(nid \<mapsto> \<lparr>l_item_id = item_id loan, l_borrower_id = borrower_id loan,
                 l_borrowed_at = now, l_id = nid\<rparr>))"
  by (auto simp add: borrow_item_def store_defs split: option.splits)

lemma return_item_writes:
  "(snd (return_item st iid) = st \<and> (\<exists>e. fst (return_item st iid) = Inl e))
   \<or> (\<exists>it m. mem_items st iid = Some it
         \<and> fst (return_item st iid) = Inr m
         \<and> mem_items (snd (return_item st iid)) = (mem_items st)(iid \<mapsto> it\<lparr>i_available := True\<rparr>)
         \<and> mem_loans (snd (return_item st iid)) = mem_loans st)"
  by (auto simp add: return_item_def store_defs split: option.splits)

lemma step_ledger_inv:
  assumes inv: "ledger_inv (mem_items st) (mem_loans st) log" and fr: "fresh st r"
  shows "ledger_inv (mem_items (step st r)) (mem_loans (step st r)) (log @ events st r)"
proof (cases r)
  case (Register name email nid now)
  with inv show ?thesis
    by (simp add: post_users_keeps)
next
  case (Create_item item nid now)
  from fr Create_item have new: "mem_items st nid = None"
    by simp
  let ?d = "\<lparr>i_name = ic_name item, i_description = ic_description item,
              i_owner_id = ic_owner_id item, i_available = True,
              i_created_at = now, i_id = nid\<rparr>"
  from create_item_writes [of st item nid now] show ?thesis
  proof
    assume "snd (create_item st item nid now) = st"
    with inv Create_item show ?thesis by simp
  next
    assume d: "mem_items (snd (create_item st item nid now)) = (mem_items st)(nid \<mapsto> ?d)
         \<and> mem_loans (snd (create_item st item nid now)) = mem_loans st"
    have av: "i_available ?d" by simp
    from ledger_inv_new_item [OF inv new av] d Create_item
    show ?thesis by simp
  qed
next
  case (Borrow loan nid now)
  from fr Borrow have new: "mem_loans st nid = None"
    by simp
  let ?l = "\<lparr>l_item_id = item_id loan, l_borrower_id = borrower_id loan,
              l_borrowed_at = now, l_id = nid\<rparr>"
  from borrow_item_writes [of st loan nid now] show ?thesis
  proof
    assume "snd (borrow_item st loan nid now) = st \<and> (\<exists>e. fst (borrow_item st loan nid now) = Inl e)"
    with inv Borrow show ?thesis by auto
  next
    assume "\<exists>it m. mem_items st (item_id loan) = Some it
         \<and> fst (borrow_item st loan nid now) = Inr m
         \<and> mem_items (snd (borrow_item st loan nid now))
              = (mem_items st)(item_id loan \<mapsto> it\<lparr>i_available := False\<rparr>)
         \<and> mem_loans (snd (borrow_item st loan nid now)) = (mem_loans st)(nid \<mapsto> ?l)"
    then obtain it m where w: "mem_items st (item_id loan) = Some it"
        "fst (borrow_item st loan nid now) = Inr m"
        "mem_items (snd (borrow_item st loan nid now))
              = (mem_items st)(item_id loan \<mapsto> it\<lparr>i_available := False\<rparr>)"
        "mem_loans (snd (borrow_item st loan nid now)) = (mem_loans st)(nid \<mapsto> ?l)"
      by blast
    have l: "l_id ?l = nid" "l_item_id ?l = item_id loan" by simp_all
    from ledger_inv_lend [OF inv w(1) new l] w(2,3,4) Borrow
    show ?thesis by simp
  qed
next
  case (Return iid)
  from return_item_writes [of st iid] show ?thesis
  proof
    assume "snd (return_item st iid) = st \<and> (\<exists>e. fst (return_item st iid) = Inl e)"
    with inv Return show ?thesis by auto
  next
    assume "\<exists>it m. mem_items st iid = Some it
         \<and> fst (return_item st iid) = Inr m
         \<and> mem_items (snd (return_item st iid)) = (mem_items st)(iid \<mapsto> it\<lparr>i_available := True\<rparr>)
         \<and> mem_loans (snd (return_item st iid)) = mem_loans st"
    then obtain it m where w: "mem_items st iid = Some it"
        "fst (return_item st iid) = Inr m"
        "mem_items (snd (return_item st iid)) = (mem_items st)(iid \<mapsto> it\<lparr>i_available := True\<rparr>)"
        "mem_loans (snd (return_item st iid)) = mem_loans st"
      by blast
    from ledger_inv_give_back [OF inv w(1)] w(2,3,4) Return
    show ?thesis by simp
  qed
qed

lemma run_ledger_inv:
  assumes "ledger_inv (mem_items st) (mem_loans st) log" and "ids_fresh st rs"
  shows "ledger_inv (mem_items (run st rs)) (mem_loans (run st rs)) (log @ history st rs)"
  using assms
proof (induction rs arbitrary: st log)
  case Nil
  then show ?case by simp
next
  case (Cons r rs)
  from Cons.prems have "ledger_inv (mem_items (step st r)) (mem_loans (step st r)) (log @ events st r)"
    and "ids_fresh (step st r) rs"
    by (simp_all add: step_ledger_inv)
  from Cons.IH [OF this] show ?case by simp
qed

text \<open>
  C9. In every store reached from the empty one by any list of requests, an item's flag
  is false exactly when some stored loan of that item is not matched, that is, no return
  of the item has succeeded since that loan was made. The ids drawn along the run are
  fresh, as \<open>uuid4\<close> ids are.
\<close>

theorem unavailable_iff_open_loan:
  assumes "ids_fresh empty_store rs"
    and "mem_items (run empty_store rs) iid = Some it"
  shows "(\<not> i_available it) \<longleftrightarrow>
           (\<exists>l \<in> ran (mem_loans (run empty_store rs)).
               l_item_id l = iid \<and> \<not> matched (history empty_store rs) l)"
proof -
  have "ledger_inv (mem_items empty_store) (mem_loans empty_store) []"
    by (simp add: ledger_inv_def empty_store_def)
  from run_ledger_inv [OF this assms(1)]
  have "ledger_inv (mem_items (run empty_store rs)) (mem_loans (run empty_store rs))
          (history empty_store rs)"
    by simp
  with assms(2) have "(\<not> i_available it) =
      (\<exists>lid l. mem_loans (run empty_store rs) lid = Some l \<and> l_item_id l = iid
          \<and> \<not> matched (history empty_store rs) l)"
    unfolding ledger_inv_def by blast
  then show ?thesis
    by (auto simp add: ran_def)
qed


lemma ex_requests_fresh: "ids_fresh empty_store ex_requests"
  by (simp add: eval_defs)

lemma ex_requests_item: "\<exists>d. mem_items (run empty_store ex_requests) ''i1'' = Some d \<and> \<not> i_available d"
  by (simp add: eval_defs)

lemma ex_returned_fresh: "ids_fresh empty_store ex_returned"
  by (simp add: eval_defs)

lemma ex_returned_item: "\<exists>d. mem_items (run empty_store ex_returned) ''i1'' = Some d \<and> i_available d"
  by (simp add: eval_defs)

theorem unavailable_iff_open_loan_witness:
  "ids_fresh empty_store ex_requests
   \<and> (\<exists>d. mem_items (run empty_store ex_requests) ''i1'' = Some d \<and> \<not> i_available d)
   \<and> (\<exists>l \<in> ran (mem_loans (run empty_store ex_requests)).
         l_item_id l = ''i1'' \<and> \<not> matched (history empty_store ex_requests) l)
   \<and> ids_fresh empty_store ex_returned
   \<and> (\<exists>d. mem_items (run empty_store ex_returned) ''i1'' = Some d \<and> i_available d)
   \<and> \<not> (\<exists>l \<in> ran (mem_loans (run empty_store ex_returned)).
         l_item_id l = ''i1'' \<and> \<not> matched (history empty_store ex_returned) l)"
proof -
  from ex_requests_item obtain d where d: "mem_items (run empty_store ex_requests) ''i1'' = Some d"
      "\<not> i_available d"
    by blast
  from unavailable_iff_open_loan [OF ex_requests_fresh d(1)] d(2)
  have 1: "\<exists>l \<in> ran (mem_loans (run empty_store ex_requests)).
         l_item_id l = ''i1'' \<and> \<not> matched (history empty_store ex_requests) l"
    by simp
  from ex_returned_item obtain e where e: "mem_items (run empty_store ex_returned) ''i1'' = Some e"
      "i_available e"
    by blast
  from unavailable_iff_open_loan [OF ex_returned_fresh e(1)] e(2)
  have 2: "\<not> (\<exists>l \<in> ran (mem_loans (run empty_store ex_returned)).
         l_item_id l = ''i1'' \<and> \<not> matched (history empty_store ex_returned) l)"
    by simp
  from ex_requests_fresh ex_requests_item 1 ex_returned_fresh ex_returned_item 2
  show ?thesis by blast
qed
end
